theory Spec2Isabelle
  imports Main
begin

section \<open>Python strings\<close>

text \<open>
  A Python \<open>str\<close> is modelled as a \<open>string\<close> holding its UTF-8 bytes. The checks of
  \<open>api.py\<close> on strings compare against ASCII text only (\<open>.pdf\<close>, \<open>.docx\<close>,
  \<open>.crdownload\<close>, the dot of \<open>rsplit\<close>), and an ASCII byte never occurs inside the
  encoding of another code point, so the byte view and the code-point view agree on them.
\<close>

definition endswith :: "string \<Rightarrow> string \<Rightarrow> bool" where
  "endswith s suf \<longleftrightarrow> length suf \<le> length s \<and> drop (length s - length suf) s = suf"

text \<open>
  \<open>str.lower()\<close>: the ASCII capitals are mapped to their small letters. Python also
  lowers capitals outside ASCII; none of them lowers to \<open>.\<close>, \<open>p\<close>, \<open>d\<close> or
  \<open>f\<close>, so the test \<open>lower().endswith('.pdf')\<close> is not affected.
\<close>

definition lower_char :: "char \<Rightarrow> char" where
  "lower_char c =
     (case map_of (zip ''ABCDEFGHIJKLMNOPQRSTUVWXYZ'' ''abcdefghijklmnopqrstuvwxyz'') c of
        Some d \<Rightarrow> d
      | None \<Rightarrow> c)"

definition lower :: "string \<Rightarrow> string" where
  "lower s = map lower_char s"

text \<open>\<open>s.rsplit('.', 1)[0]\<close>: the text before the last dot, or all of \<open>s\<close> without a dot.\<close>

definition rsplit_dot_head :: "string \<Rightarrow> string" where
  "rsplit_dot_head s =
     (if CHR ''.'' \<in> set s then rev (tl (dropWhile (\<lambda>c. c \<noteq> CHR ''.'') (rev s))) else s)"

text \<open>Truthiness of an \<open>Optional[str]\<close>: \<open>None\<close> and the empty string are falsy.\<close>

fun truthy :: "string option \<Rightarrow> bool" where
  "truthy None = False"
| "truthy (Some s) = (s \<noteq> [])"

text \<open>The two letters outside ASCII of the service's messages, as UTF-8.\<close>

definition a_tilde :: string where
  "a_tilde = [CHR 0xC3, CHR 0xA3]"

definition i_acute :: string where
  "i_acute = [CHR 0xC3, CHR 0xAD]"

definition conversao :: string where
  "conversao = ''Convers'' @ a_tilde @ ''o''"

definition nao :: string where
  "nao = ''n'' @ a_tilde @ ''o''"

section \<open>Data model\<close>

text \<open>The dictionary stored under each id of \<open>conversions\<close> (lines 302 to 309).\<close>

record conversion =
  conv_id :: string
  status :: string
  message :: string
  url :: "string option"
  filename :: "string option"
  original_filename :: string

text \<open>The response model of lines 40 to 45: id, status, message, url, filename.\<close>

datatype ConversionStatus =
  ConversionStatus string string "string option" "string option" "string option"

text \<open>\<open>HTTPException(status_code, detail)\<close>.\<close>

datatype HTTPException = HTTPException nat string

text \<open>\<open>FileResponse(path, filename, media_type)\<close>.\<close>

datatype FileResponse = FileResponse string string string

text \<open>
  Exceptions inside the worker: the \<open>KeyError\<close> of a registry lookup, and any other
  exception, kept by the text \<open>str(e)\<close> gives for it.
\<close>

datatype exn = KeyError string | Raised string

fun str_exn :: "exn \<Rightarrow> string" where
  "str_exn (KeyError k) = [CHR 0x27] @ k @ [CHR 0x27]"
| "str_exn (Raised t) = t"

text \<open>
  Where the worker thread of a job stands in \<open>process_conversion\<close>: the line of
  \<open>api.py\<close> it executes next. \<open>At241\<close> to \<open>At243\<close> carry the name \<open>convert\<close> returned,
  \<open>At251\<close> and \<open>At252\<close> the exception being handled, \<open>At257\<close> the exception that leaves
  the function after the \<open>finally\<close> block, if any.
\<close>

datatype pc =
  At229 | At230 | At237
| At241 "string option" | At242 "string option" | At243 "string option" | At244
| At247 | At248
| At251 exn | At252 exn
| At257 "exn option"

text \<open>Calls that leave the process, in the order they are made.\<close>

datatype event = EngineCall string | OsRemove string

text \<open>
  The state of the service: the global \<open>conversions\<close>, the files on disk keyed by their
  path relative to the working directory (\<open>uploads/...\<close>, \<open>outputs/...\<close>), the paths
  the operating system refuses to remove (no permission, a file in use, a directory),
  the worker threads that have been started and have not ended, and the trace of
  outside calls.
\<close>

record world =
  conversions :: "string \<rightharpoonup> conversion"
  files :: "string \<rightharpoonup> string"
  locked :: "string set"
  threads :: "string \<rightharpoonup> pc"
  trace :: "event list"

definition upload_path :: "string \<Rightarrow> string" where
  "upload_path conversion_id = ''uploads/'' @ conversion_id @ ''.pdf''"

definition output_path :: "string \<Rightarrow> string" where
  "output_path name = ''outputs/'' @ name"

text \<open>
  \<open>try: os.remove(path) except: pass\<close>. The call is made once. When the operating
  system refuses it, or the file is not there, \<open>os.remove\<close> raises, the exception is
  dropped and the files are as before; otherwise the file is gone.
\<close>

definition remove_quietly :: "string \<Rightarrow> world \<Rightarrow> world" where
  "remove_quietly path w =
     (if path \<in> locked w
      then w\<lparr>trace := trace w @ [OsRemove path]\<rparr>
      else w\<lparr>files := (files w)(path := None), trace := trace w @ [OsRemove path]\<rparr>)"

section \<open>Endpoints\<close>

text \<open>
  \<open>convert_pdf\<close> (lines 277 to 322). \<open>uuid\<close> is the value \<open>uuid.uuid4()\<close> returns and
  \<open>body\<close> the outcome of reading the upload and writing it: \<open>Inr\<close> the bytes, or
  \<open>Inl\<close> the text of the exception of lines 294 to 299. The thread started at line
  316 stands before line 229.
\<close>

definition convert_pdf ::
  "string \<Rightarrow> string \<Rightarrow> string + string \<Rightarrow> world \<Rightarrow> (HTTPException + ConversionStatus) \<times> world" where
  "convert_pdf file_name uuid body w =
     (if \<not> endswith (lower file_name) ''.pdf''
      then (Inl (HTTPException 400 ''O arquivo deve ser um PDF''), w)
      else
        let conversion_id = uuid; pdf_path = upload_path conversion_id in
        case body of
          Inl e \<Rightarrow> (Inl (HTTPException 500 (''Erro ao salvar arquivo: '' @ e)), w)
        | Inr content \<Rightarrow>
            (Inr (ConversionStatus conversion_id ''pending''
                    (Some (conversao @ '' iniciada. Use /status/{id} para acompanhar.''))
                    None None),
             w\<lparr>files := (files w)(pdf_path \<mapsto> content),
               conversions := (conversions w)(conversion_id \<mapsto>
                 \<lparr>conv_id = conversion_id, status = ''pending'',
                  message = ''Aguardando processamento...'', url = None, filename = None,
                  original_filename = file_name\<rparr>),
               threads := (threads w)(conversion_id \<mapsto> At229)\<rparr>))"

text \<open>\<open>get_status\<close> (lines 325 to 347).\<close>

definition get_status :: "string \<Rightarrow> world \<Rightarrow> HTTPException + ConversionStatus" where
  "get_status conversion_id w =
     (case conversions w conversion_id of
        None \<Rightarrow> Inl (HTTPException 404 (conversao @ '' '' @ nao @ '' encontrada''))
      | Some conv \<Rightarrow>
          Inr (ConversionStatus (conv_id conv) (status conv) (Some (message conv))
                 (url conv) (filename conv)))"

text \<open>\<open>download_file\<close> (lines 350 to 383).\<close>

definition docx_media_type :: string where
  "docx_media_type =
     ''application/vnd.openxmlformats-officedocument.wordprocessingml.document''"

definition download_file :: "string \<Rightarrow> world \<Rightarrow> HTTPException + FileResponse" where
  "download_file conversion_id w =
     (case conversions w conversion_id of
        None \<Rightarrow> Inl (HTTPException 404 (conversao @ '' '' @ nao @ '' encontrada''))
      | Some conv \<Rightarrow>
          if status conv \<noteq> ''completed''
          then Inl (HTTPException 400
                 (conversao @ '' '' @ nao @ '' conclu'' @ i_acute @ ''da. Status: '' @ status conv))
          else if \<not> truthy (filename conv)
          then Inl (HTTPException 404 (''Arquivo '' @ nao @ '' encontrado''))
          else
            let file_path = output_path (the (filename conv)) in
            if files w file_path = None
            then Inl (HTTPException 404 (''Arquivo '' @ nao @ '' encontrado no servidor''))
            else
              let download_name = rsplit_dot_head (original_filename conv) @ ''.docx''
              in Inr (FileResponse file_path download_name docx_media_type))"

text \<open>\<open>delete_conversion\<close> (lines 392 to 410).\<close>

definition delete_conversion :: "string \<Rightarrow> world \<Rightarrow> (HTTPException + string) \<times> world" where
  "delete_conversion conversion_id w =
     (case conversions w conversion_id of
        None \<Rightarrow> (Inl (HTTPException 404 (conversao @ '' '' @ nao @ '' encontrada'')), w)
      | Some conv \<Rightarrow>
          let w1 = (if truthy (filename conv)
                    then remove_quietly (output_path (the (filename conv))) w
                    else w)
          in (Inr (conversao @ '' removida''),
              w1\<lparr>conversions := (conversions w1)(conversion_id := None)\<rparr>))"

section \<open>The conversion engine\<close>

text \<open>
  A directory entry of the download directory as \<open>_wait_for_download\<close> sees it: the name
  \<open>os.listdir\<close> gives and what \<open>os.path.getmtime\<close> gives for it, the modification time
  in seconds, or \<open>None\<close> when it raises (the file has gone since the listing, or the
  name is a link to nothing).
\<close>

type_synonym dirent = "string \<times> int option"

definition getmtime_error :: "string \<Rightarrow> exn" where
  "getmtime_error name =
     Raised (''[Errno 2] No such file or directory: '' @ [CHR 0x27] @ output_path name @ [CHR 0x27])"

text \<open>
  One pass of the loop body (lines 122 to 136) over a listing: nothing while a
  \<open>.crdownload\<close> file is there or no \<open>.docx\<close> file is. Otherwise the sort computes the
  key of every \<open>.docx\<close> name, so it raises at the first one whose modification time
  cannot be read; else the names are sorted by modification time, newest first
  (Python's sort is stable, also with \<open>reverse=True\<close>), and the first one is returned.
\<close>

definition scan_downloads :: "dirent list \<Rightarrow> exn + string option" where
  "scan_downloads entries =
     (let downloading = list_ex (\<lambda>f. endswith (fst f) ''.crdownload'') entries in
      if \<not> downloading
      then
        let docx_files = filter (\<lambda>f. endswith (fst f) ''.docx'') entries in
        if docx_files \<noteq> []
        then (case find (\<lambda>f. snd f = None) docx_files of
                Some f \<Rightarrow> Inl (getmtime_error (fst f))
              | None \<Rightarrow> Inr (Some (fst (hd (sort_key (\<lambda>f. - the (snd f)) docx_files)))))
        else Inr None
      else Inr None)"

text \<open>
  The loop of \<open>_wait_for_download\<close> (lines 121 to 140). \<open>listdir t\<close> is the content of
  the download directory at time \<open>t\<close>; the directory is created at line 32 and nothing
  in \<open>api.py\<close> removes it, so \<open>os.listdir\<close> itself succeeds. The clock advances by the
  second slept on each round. An exception of the body leaves the loop.
\<close>

function wait_loop :: "(int \<Rightarrow> dirent list) \<Rightarrow> int \<Rightarrow> int \<Rightarrow> exn + string option" where
  "wait_loop listdir end_time now =
     (if now < end_time
      then (case scan_downloads (listdir now) of
              Inl e \<Rightarrow> Inl e
            | Inr (Some f) \<Rightarrow> Inr (Some f)
            | Inr None \<Rightarrow> wait_loop listdir end_time (now + 1))
      else Inr None)"
  by pat_completeness auto
termination
  by (relation "measure (\<lambda>(listdir, end_time, now). nat (end_time - now))") auto

declare wait_loop.simps [simp del]

definition wait_for_download ::
  "(int \<Rightarrow> dirent list) \<Rightarrow> int \<Rightarrow> int \<Rightarrow> exn + string option" where
  "wait_for_download listdir now timeout = wait_loop listdir (now + timeout) now"

text \<open>
  How far the browser session of \<open>convert\<close> gets: the driver is never created, an
  exception is raised after that and before the download is awaited, or the download
  button is clicked and \<open>_wait_for_download\<close> runs.
\<close>

datatype session = NoDriver | Aborted | Clicked

record browser =
  session :: session
  listdir :: "int \<Rightarrow> dirent list"
  clock :: int
  quit_error :: "string option"

text \<open>
  \<open>ILovePDFConverter.convert\<close> (lines 142 to 221). Every exception of the body, also
  one of \<open>_wait_for_download\<close>, is caught and gives \<open>None\<close>; the \<open>finally\<close> block quits
  the driver when there is one, and an exception raised there (\<open>quit_error\<close>) leaves
  \<open>convert\<close> in place of the result.
\<close>

definition convert :: "browser \<Rightarrow> string \<Rightarrow> exn + string option" where
  "convert b pdf_path =
     (let result = (case session b of
                      Clicked \<Rightarrow>
                        (case wait_for_download (listdir b) (clock b) 120 of
                           Inl e \<Rightarrow> None
                         | Inr name \<Rightarrow> name)
                    | _ \<Rightarrow> None)
      in if session b \<noteq> NoDriver
         then (case quit_error b of Some e \<Rightarrow> Inl (Raised e) | None \<Rightarrow> Inr result)
         else Inr result)"

section \<open>The background worker\<close>

text \<open>
  A run of assignments \<open>conversions[conversion_id][key] = value\<close>, in order. Each one
  looks the id up again and raises \<open>KeyError\<close> when it is gone; what was assigned before
  stays.
\<close>

fun assign_all ::
  "string \<Rightarrow> (conversion \<Rightarrow> conversion) list \<Rightarrow> world \<Rightarrow> exn option \<times> world" where
  "assign_all conversion_id [] w = (None, w)"
| "assign_all conversion_id (u # us) w =
     (case conversions w conversion_id of
        None \<Rightarrow> (Some (KeyError conversion_id), w)
      | Some conv \<Rightarrow>
          assign_all conversion_id us
            (w\<lparr>conversions := (conversions w)(conversion_id \<mapsto> u conv)\<rparr>))"

text \<open>Lines 229 and 230.\<close>

definition mark_processing :: "string \<Rightarrow> world \<Rightarrow> exn option \<times> world" where
  "mark_processing conversion_id w =
     assign_all conversion_id
       [\<lambda>c. c\<lparr>status := ''processing''\<rparr>,
        \<lambda>c. c\<lparr>message := ''Convertendo PDF para Word...''\<rparr>] w"

text \<open>Lines 239 to 248, on what \<open>convert\<close> gave.\<close>

definition record_outcome :: "string \<Rightarrow> exn + string option \<Rightarrow> world \<Rightarrow> exn option \<times> world" where
  "record_outcome conversion_id outcome w =
     (case outcome of
        Inl e \<Rightarrow> (Some e, w)
      | Inr name \<Rightarrow>
          if truthy name
          then assign_all conversion_id
                 [\<lambda>c. c\<lparr>status := ''completed''\<rparr>,
                  \<lambda>c. c\<lparr>message := conversao @ '' conclu'' @ i_acute @ ''da!''\<rparr>,
                  \<lambda>c. c\<lparr>filename := name\<rparr>,
                  \<lambda>c. c\<lparr>url := Some (''/download/'' @ conversion_id)\<rparr>] w
          else assign_all conversion_id
                 [\<lambda>c. c\<lparr>status := ''error''\<rparr>,
                  \<lambda>c. c\<lparr>message := ''Falha na convers'' @ a_tilde @ ''o''\<rparr>] w)"

text \<open>
  The way out of the \<open>try\<close> statement: the handler of lines 250 to 252 when an exception
  is pending (it can raise \<open>KeyError\<close> itself), then the \<open>finally\<close> block of lines 254 to
  259. The first component is the exception that leaves \<open>process_conversion\<close>, if any.
\<close>

definition leave_try :: "string \<Rightarrow> string \<Rightarrow> exn option \<times> world \<Rightarrow> exn option \<times> world" where
  "leave_try conversion_id pdf_path r =
     (let (pending, w) = r;
          (escaping, w1) =
            (case pending of
               None \<Rightarrow> (None, w)
             | Some e \<Rightarrow>
                 assign_all conversion_id
                   [\<lambda>c. c\<lparr>status := ''error''\<rparr>,
                    \<lambda>c. c\<lparr>message := str_exn e\<rparr>] w)
      in (escaping, remove_quietly pdf_path w1))"

definition enter_engine :: "string \<Rightarrow> world \<Rightarrow> world" where
  "enter_engine pdf_path w = w\<lparr>trace := trace w @ [EngineCall pdf_path]\<rparr>"

text \<open>\<open>process_conversion\<close> (lines 225 to 259), run from start to end.\<close>

definition process_conversion ::
  "browser \<Rightarrow> string \<Rightarrow> string \<Rightarrow> world \<Rightarrow> exn option \<times> world" where
  "process_conversion b conversion_id pdf_path w =
     (case mark_processing conversion_id w of
        (Some e, w1) \<Rightarrow> leave_try conversion_id pdf_path (Some e, w1)
      | (None, w1) \<Rightarrow>
          leave_try conversion_id pdf_path
            (record_outcome conversion_id (convert b pdf_path) (enter_engine pdf_path w1)))"

section \<open>The worker, statement by statement\<close>

text \<open>
  The worker runs in a thread of its own, and the endpoints and the other workers run
  between any two of its statements. One assignment
  \<open>conversions[conversion_id][key] = value\<close>:
\<close>

definition assign :: "string \<Rightarrow> (conversion \<Rightarrow> conversion) \<Rightarrow> world \<Rightarrow> exn + world" where
  "assign conversion_id u w =
     (case conversions w conversion_id of
        None \<Rightarrow> Inl (KeyError conversion_id)
      | Some conv \<Rightarrow> Inr (w\<lparr>conversions := (conversions w)(conversion_id \<mapsto> u conv)\<rparr>))"

text \<open>
  Where a statement of the \<open>try\<close> block goes on: to the next line, or to the handler at
  line 251 with the exception raised. A statement of the handler goes on to the next
  line, or to the \<open>finally\<close> block with the exception that will leave the function.
\<close>

definition in_try :: "exn + world \<Rightarrow> pc \<Rightarrow> world \<Rightarrow> pc option \<times> world" where
  "in_try r next w = (case r of Inl e \<Rightarrow> (Some (At251 e), w) | Inr w' \<Rightarrow> (Some next, w'))"

definition in_handler :: "exn + world \<Rightarrow> pc \<Rightarrow> world \<Rightarrow> pc option \<times> world" where
  "in_handler r next w =
     (case r of Inl e \<Rightarrow> (Some (At257 (Some e)), w) | Inr w' \<Rightarrow> (Some next, w'))"

text \<open>
  One statement of \<open>process_conversion\<close>: the line the thread stands at is executed,
  and the result is the line it stands at next, or \<open>None\<close> when the thread has ended.
  The engine call of line 237 is one statement; it does not touch the registry.
\<close>

fun worker_step :: "browser \<Rightarrow> string \<Rightarrow> string \<Rightarrow> pc \<Rightarrow> world \<Rightarrow> pc option \<times> world" where
  "worker_step b conversion_id pdf_path At229 w =
     in_try (assign conversion_id (\<lambda>c. c\<lparr>status := ''processing''\<rparr>) w) At230 w"
| "worker_step b conversion_id pdf_path At230 w =
     in_try (assign conversion_id (\<lambda>c. c\<lparr>message := ''Convertendo PDF para Word...''\<rparr>) w)
       At237 w"
| "worker_step b conversion_id pdf_path At237 w =
     (case convert b pdf_path of
        Inl e \<Rightarrow> (Some (At251 e), enter_engine pdf_path w)
      | Inr name \<Rightarrow>
          (Some (if truthy name then At241 name else At247), enter_engine pdf_path w))"
| "worker_step b conversion_id pdf_path (At241 name) w =
     in_try (assign conversion_id (\<lambda>c. c\<lparr>status := ''completed''\<rparr>) w) (At242 name) w"
| "worker_step b conversion_id pdf_path (At242 name) w =
     in_try (assign conversion_id
               (\<lambda>c. c\<lparr>message := conversao @ '' conclu'' @ i_acute @ ''da!''\<rparr>) w)
       (At243 name) w"
| "worker_step b conversion_id pdf_path (At243 name) w =
     in_try (assign conversion_id (\<lambda>c. c\<lparr>filename := name\<rparr>) w) At244 w"
| "worker_step b conversion_id pdf_path At244 w =
     in_try (assign conversion_id (\<lambda>c. c\<lparr>url := Some (''/download/'' @ conversion_id)\<rparr>) w)
       (At257 None) w"
| "worker_step b conversion_id pdf_path At247 w =
     in_try (assign conversion_id (\<lambda>c. c\<lparr>status := ''error''\<rparr>) w) At248 w"
| "worker_step b conversion_id pdf_path At248 w =
     in_try (assign conversion_id (\<lambda>c. c\<lparr>message := ''Falha na convers'' @ a_tilde @ ''o''\<rparr>) w)
       (At257 None) w"
| "worker_step b conversion_id pdf_path (At251 e) w =
     in_handler (assign conversion_id (\<lambda>c. c\<lparr>status := ''error''\<rparr>) w) (At252 e) w"
| "worker_step b conversion_id pdf_path (At252 e) w =
     in_handler (assign conversion_id (\<lambda>c. c\<lparr>message := str_exn e\<rparr>) w) (At257 None) w"
| "worker_step b conversion_id pdf_path (At257 escaping) w =
     (None, remove_quietly pdf_path w)"

text \<open>At most \<open>n\<close> statements of the worker, with nothing running in between.\<close>

fun run_worker ::
  "nat \<Rightarrow> browser \<Rightarrow> string \<Rightarrow> string \<Rightarrow> pc \<Rightarrow> world \<Rightarrow> pc option \<times> world" where
  "run_worker 0 b conversion_id pdf_path at w = (Some at, w)"
| "run_worker (Suc n) b conversion_id pdf_path at w =
     (case worker_step b conversion_id pdf_path at w of
        (None, w1) \<Rightarrow> (None, w1)
      | (Some next, w1) \<Rightarrow> run_worker n b conversion_id pdf_path next w1)"

text \<open>
  The thread of a job executes its next statement, on the upload path it was started
  with (line 314); nothing happens when the job has no thread.
\<close>

definition advance :: "browser \<Rightarrow> string \<Rightarrow> world \<Rightarrow> world" where
  "advance b conversion_id w =
     (case threads w conversion_id of
        None \<Rightarrow> w
      | Some at \<Rightarrow>
          (case worker_step b conversion_id (upload_path conversion_id) at w of
             (next, w1) \<Rightarrow> w1\<lparr>threads := (threads w1)(conversion_id := next)\<rparr>))"

section \<open>The service as a transition system\<close>

text \<open>
  The steps of the running service. A submission stores the upload, creates the record
  and starts the one worker of the job, under an id that \<open>uuid4\<close> has not given to a
  job still known or to a worker still alive. A worker executes one statement. A
  deletion can come at any time. Status queries, downloads and listings read the state
  and do not change it.
\<close>

inductive step :: "world \<Rightarrow> world \<Rightarrow> bool" where
  submit:
    "uuid \<notin> dom (conversions w) \<Longrightarrow> uuid \<notin> dom (threads w) \<Longrightarrow>
     step w (snd (convert_pdf file_name uuid body w))"
| worker:
    "threads w conversion_id = Some at \<Longrightarrow> step w (advance b conversion_id w)"
| delete:
    "step w (snd (delete_conversion conversion_id w))"

definition start_world :: "(string \<rightharpoonup> string) \<Rightarrow> world" where
  "start_world fs =
     \<lparr>conversions = Map.empty, files = fs, locked = {}, threads = Map.empty, trace = []\<rparr>"

inductive reachable :: "world \<Rightarrow> bool" where
  start: "reachable ((start_world fs)\<lparr>locked := refused\<rparr>)"
| after: "reachable w \<Longrightarrow> step w w' \<Longrightarrow> reachable w'"

section \<open>Derived notions\<close>

text \<open>
  The record \<open>process_conversion\<close> leaves behind for a job that is in the registry, as a
  function of what \<open>convert\<close> gave: the closed form of lines 239 to 252.
\<close>

definition final_record :: "string \<Rightarrow> exn + string option \<Rightarrow> conversion \<Rightarrow> conversion" where
  "final_record conversion_id outcome conv =
     (case outcome of
        Inl e \<Rightarrow> conv\<lparr>status := ''error'', message := str_exn e\<rparr>
      | Inr name \<Rightarrow>
          if truthy name
          then conv\<lparr>status := ''completed'',
                    message := conversao @ '' conclu'' @ i_acute @ ''da!'',
                    filename := name, url := Some (''/download/'' @ conversion_id)\<rparr>
          else conv\<lparr>status := ''error'', message := ''Falha na convers'' @ a_tilde @ ''o''\<rparr>)"

text \<open>
  The invariant of the transition system, for one record: what its status and its
  artifact name are at each line its worker can stand at. \<open>gone\<close> says that the upload
  is not on disk or cannot be removed; it holds once the worker has ended.
\<close>

fun job_ok :: "pc option \<Rightarrow> bool \<Rightarrow> conversion \<Rightarrow> bool" where
  "job_ok (Some At229) gone conv \<longleftrightarrow> status conv = ''pending'' \<and> filename conv = None"
| "job_ok (Some At230) gone conv \<longleftrightarrow> status conv = ''processing'' \<and> filename conv = None"
| "job_ok (Some At237) gone conv \<longleftrightarrow> status conv = ''processing'' \<and> filename conv = None"
| "job_ok (Some (At241 name)) gone conv \<longleftrightarrow>
     status conv = ''processing'' \<and> filename conv = None \<and> truthy name"
| "job_ok (Some (At242 name)) gone conv \<longleftrightarrow>
     status conv = ''completed'' \<and> filename conv = None \<and> truthy name"
| "job_ok (Some (At243 name)) gone conv \<longleftrightarrow>
     status conv = ''completed'' \<and> filename conv = None \<and> truthy name"
| "job_ok (Some At244) gone conv \<longleftrightarrow> status conv = ''completed'' \<and> truthy (filename conv)"
| "job_ok (Some At247) gone conv \<longleftrightarrow> status conv = ''processing'' \<and> filename conv = None"
| "job_ok (Some At248) gone conv \<longleftrightarrow> status conv = ''error'' \<and> filename conv = None"
| "job_ok (Some (At251 e)) gone conv \<longleftrightarrow> status conv = ''processing'' \<and> filename conv = None"
| "job_ok (Some (At252 e)) gone conv \<longleftrightarrow> status conv = ''error'' \<and> filename conv = None"
| "job_ok (Some (At257 escaping)) gone conv \<longleftrightarrow>
     status conv = ''completed'' \<and> truthy (filename conv) \<or>
     status conv = ''error'' \<and> filename conv = None"
| "job_ok None gone conv \<longleftrightarrow>
     (status conv = ''completed'' \<and> truthy (filename conv) \<or>
      status conv = ''error'' \<and> filename conv = None) \<and> gone"

definition consistent :: "world \<Rightarrow> bool" where
  "consistent w \<longleftrightarrow>
     (\<forall>conversion_id conv. conversions w conversion_id = Some conv \<longrightarrow>
        job_ok (threads w conversion_id)
          (files w (upload_path conversion_id) = None \<or> upload_path conversion_id \<in> locked w)
          conv)"

text \<open>
  A listing in which \<open>_wait_for_download\<close> finds something to sort: no download in
  progress and at least one \<open>.docx\<close> file. It is readable when \<open>getmtime\<close> succeeds on
  every \<open>.docx\<close> file of it.
\<close>

definition download_ready :: "dirent list \<Rightarrow> bool" where
  "download_ready entries \<longleftrightarrow>
     \<not> list_ex (\<lambda>f. endswith (fst f) ''.crdownload'') entries \<and>
     list_ex (\<lambda>f. endswith (fst f) ''.docx'') entries"

definition readable :: "dirent list \<Rightarrow> bool" where
  "readable entries \<longleftrightarrow>
     \<not> list_ex (\<lambda>f. endswith (fst f) ''.docx'' \<and> snd f = None) entries"

text \<open>The record a submission creates, and the record of a completed job.\<close>

definition pending_job :: "string \<Rightarrow> string \<Rightarrow> conversion" where
  "pending_job conversion_id file_name =
     \<lparr>conv_id = conversion_id, status = ''pending'', message = ''Aguardando processamento...'',
      url = None, filename = None, original_filename = file_name\<rparr>"

definition completed_job :: "string \<Rightarrow> string \<Rightarrow> string \<Rightarrow> conversion" where
  "completed_job conversion_id file_name name =
     \<lparr>conv_id = conversion_id, status = ''completed'',
      message = conversao @ '' conclu'' @ i_acute @ ''da!'',
      url = Some (''/download/'' @ conversion_id),
      filename = Some name, original_filename = file_name\<rparr>"

section \<open>Example runs\<close>

text \<open>
  A download directory that holds one old \<open>.docx\<close> file, an empty one, and one that
  lists a \<open>.docx\<close> file that is no longer there; a browser session that reaches the
  download, one that waits for a download that never comes, and one whose driver
  raises an exception with an empty text when it is quit.
\<close>

definition stale_listing :: "int \<Rightarrow> dirent list" where
  "stale_listing t = [(''old.docx'', Some 5)]"

definition empty_listing :: "int \<Rightarrow> dirent list" where
  "empty_listing t = []"

definition vanished_listing :: "int \<Rightarrow> dirent list" where
  "vanished_listing t = [(''gone.docx'', None)]"

definition clicked_browser :: browser where
  "clicked_browser = \<lparr>session = Clicked, listdir = stale_listing, clock = 100, quit_error = None\<rparr>"

definition idle_browser :: browser where
  "idle_browser = \<lparr>session = Clicked, listdir = empty_listing, clock = 0, quit_error = None\<rparr>"


text \<open>
  One job from submission to completion, statement by statement: after the
  submission, inside the engine call, after line 241, and after the worker has ended.
  Then a registry holding a completed job whose artifact is on disk, and the same with
  the artifact refused to removal.
\<close>

definition submitted_world :: world where
  "submitted_world = snd (convert_pdf ''report.pdf'' ''j1'' (Inr ''%PDF'') (start_world Map.empty))"

definition running_world :: world where
  "running_world = (advance clicked_browser ''j1'' ^^ 2) submitted_world"

definition half_done_world :: world where
  "half_done_world = (advance clicked_browser ''j1'' ^^ 2) running_world"

definition finished_world :: world where
  "finished_world = (advance clicked_browser ''j1'' ^^ 4) half_done_world"

definition done_world :: world where
  "done_world =
     \<lparr>conversions = [''j1'' \<mapsto> completed_job ''j1'' ''report.pdf'' ''report.docx''],
      files = [''outputs/report.docx'' \<mapsto> ''PK''], locked = {},
      threads = Map.empty, trace = []\<rparr>"

definition stuck_world :: world where
  "stuck_world = done_world\<lparr>locked := {output_path ''report.docx''}\<rparr>"

section \<open>Closed forms of the worker\<close>

lemma mark_processing_known:
  "conversions w conversion_id = Some conv \<Longrightarrow>
   mark_processing conversion_id w =
     (None, w\<lparr>conversions := (conversions w)(conversion_id \<mapsto>
        conv\<lparr>status := ''processing'', message := ''Convertendo PDF para Word...''\<rparr>)\<rparr>)"
  by (simp add: mark_processing_def)

lemma mark_processing_unknown:
  "conversions w conversion_id = None \<Longrightarrow>
   mark_processing conversion_id w = (Some (KeyError conversion_id), w)"
  by (simp add: mark_processing_def)

lemma finish_known:
  "conversions w conversion_id = Some conv \<Longrightarrow>
   leave_try conversion_id pdf_path (record_outcome conversion_id outcome w) =
     (None, remove_quietly pdf_path
              (w\<lparr>conversions := (conversions w)(conversion_id \<mapsto>
                   final_record conversion_id outcome conv)\<rparr>))"
  by (simp add: leave_try_def record_outcome_def final_record_def split: sum.split)

lemma start_fails_unknown:
  "conversions w conversion_id = None \<Longrightarrow>
   leave_try conversion_id pdf_path (Some e, w) =
     (Some (KeyError conversion_id), remove_quietly pdf_path w)"
  by (simp add: leave_try_def)

lemma process_conversion_known:
  "conversions w conversion_id = Some conv \<Longrightarrow>
   process_conversion b conversion_id pdf_path w =
     (None, remove_quietly pdf_path
              (w\<lparr>trace := trace w @ [EngineCall pdf_path],
                 conversions := (conversions w)(conversion_id \<mapsto>
                   final_record conversion_id (convert b pdf_path)
                     (conv\<lparr>status := ''processing'',
                            message := ''Convertendo PDF para Word...''\<rparr>))\<rparr>))"
  by (simp add: process_conversion_def mark_processing_known finish_known enter_engine_def)

lemma process_conversion_unknown:
  "conversions w conversion_id = None \<Longrightarrow>
   process_conversion b conversion_id pdf_path w =
     (Some (KeyError conversion_id), remove_quietly pdf_path w)"
  by (simp add: process_conversion_def mark_processing_unknown start_fails_unknown)


lemma remove_quietly_simps:
  "conversions (remove_quietly path w) = conversions w"
  "threads (remove_quietly path w) = threads w"
  "locked (remove_quietly path w) = locked w"
  "trace (remove_quietly path w) = trace w @ [OsRemove path]"
  "files (remove_quietly path w) other =
     (if other = path \<and> path \<notin> locked w then None else files w other)"
  by (simp_all add: remove_quietly_def)

lemma upload_path_inject: "upload_path a = upload_path b \<longleftrightarrow> a = b"
  by (simp add: upload_path_def)

section \<open>One statement of the worker\<close>

text \<open>
  A statement of the worker of a job leaves the records of the other jobs, the threads
  and the refused paths as they are, and takes no file away but, at line 257, its own
  upload.
\<close>

lemma worker_step_frame:
  assumes "worker_step b conversion_id pdf_path at w = (next, w1)"
  shows "threads w1 = threads w" and "locked w1 = locked w"
    and "other \<noteq> conversion_id \<Longrightarrow> conversions w1 other = conversions w other"
    and "p \<noteq> pdf_path \<Longrightarrow> files w1 p = files w p"
    and "conversions w conversion_id = None \<Longrightarrow> conversions w1 conversion_id = None"
  using assms
  by (cases at;
      auto simp: in_try_def in_handler_def assign_def enter_engine_def remove_quietly_def
        split: option.splits sum.splits if_splits)+

text \<open>What a statement does to the record of its own job, line by line.\<close>

lemma worker_step_own:
  assumes "worker_step b conversion_id pdf_path at w = (next, w1)"
    and "conversions w conversion_id = Some conv"
    and "job_ok (Some at) gone conv"
  shows "\<exists>conv'. conversions w1 conversion_id = Some conv' \<and>
           job_ok next (files w1 pdf_path = None \<or> pdf_path \<in> locked w1) conv' \<and>
           (status conv = ''completed'' \<or> status conv = ''error'' \<longrightarrow> status conv' = status conv)"
  using assms
  by (cases at;
      auto simp: in_try_def in_handler_def assign_def enter_engine_def remove_quietly_def
        split: option.splits sum.splits if_splits)

section \<open>The invariant holds in every reachable state\<close>

lemma consistent_start: "consistent ((start_world fs)\<lparr>locked := refused\<rparr>)"
  by (simp add: consistent_def start_world_def)

lemma consistent_submit:
  assumes "consistent w"
  shows "consistent (snd (convert_pdf file_name uuid body w))"
proof (cases "endswith (lower file_name) ''.pdf''")
  case False
  with assms show ?thesis by (simp add: convert_pdf_def)
next
  case True
  show ?thesis
  proof (cases body)
    case (Inl e)
    with assms True show ?thesis by (simp add: convert_pdf_def)
  next
    case (Inr content)
    with assms True show ?thesis
      by (auto simp: convert_pdf_def consistent_def upload_path_inject)
  qed
qed

lemma job_ok_gone: "job_ok at gone conv \<Longrightarrow> (gone \<longrightarrow> gone') \<Longrightarrow> job_ok at gone' conv"
  by (cases "(at, gone, conv)" rule: job_ok.cases) auto

lemma consistent_delete:
  assumes "consistent w"
  shows "consistent (snd (delete_conversion conversion_id w))"
proof (cases "conversions w conversion_id")
  case None
  with assms show ?thesis by (simp add: delete_conversion_def)
next
  case (Some conv)
  show ?thesis
    unfolding consistent_def
  proof (intro allI impI)
    fix k c
    assume "conversions (snd (delete_conversion conversion_id w)) k = Some c"
    with Some have look: "conversions w k = Some c" and ne: "k \<noteq> conversion_id"
      by (auto simp: delete_conversion_def Let_def remove_quietly_simps split: if_splits)
    from assms look
    have ok: "job_ok (threads w k) (files w (upload_path k) = None \<or> upload_path k \<in> locked w) c"
      by (simp add: consistent_def)
    have th: "threads (snd (delete_conversion conversion_id w)) k = threads w k"
      and lk: "locked (snd (delete_conversion conversion_id w)) = locked w"
      and fl: "files w (upload_path k) = None \<longrightarrow>
               files (snd (delete_conversion conversion_id w)) (upload_path k) = None"
      using Some by (auto simp: delete_conversion_def Let_def remove_quietly_simps)
    show "job_ok (threads (snd (delete_conversion conversion_id w)) k)
        (files (snd (delete_conversion conversion_id w)) (upload_path k) = None \<or>
         upload_path k \<in> locked (snd (delete_conversion conversion_id w))) c"
      unfolding th lk by (rule job_ok_gone [OF ok]) (use fl in auto)
  qed
qed

lemma consistent_advance:
  assumes "consistent w"
  shows "consistent (advance b conversion_id w)"
proof (cases "threads w conversion_id")
  case None
  with assms show ?thesis by (simp add: advance_def)
next
  case (Some at)
  obtain "next" w1 where
    ws: "worker_step b conversion_id (upload_path conversion_id) at w = (next, w1)"
    by (cases "worker_step b conversion_id (upload_path conversion_id) at w")
  with Some have adv: "advance b conversion_id w = w1\<lparr>threads := (threads w1)(conversion_id := next)\<rparr>"
    by (simp add: advance_def)
  note frame = worker_step_frame [OF ws]
  show ?thesis
    unfolding adv consistent_def
  proof (intro allI impI)
    fix k c
    assume look: "conversions (w1\<lparr>threads := (threads w1)(conversion_id := next)\<rparr>) k = Some c"
    show "job_ok (threads (w1\<lparr>threads := (threads w1)(conversion_id := next)\<rparr>) k)
        (files (w1\<lparr>threads := (threads w1)(conversion_id := next)\<rparr>) (upload_path k) = None \<or>
         upload_path k \<in> locked (w1\<lparr>threads := (threads w1)(conversion_id := next)\<rparr>)) c"
    proof (cases "k = conversion_id")
      case False
      with look frame(3) [of k] have "conversions w k = Some c" by simp
      with assms
      have "job_ok (threads w k) (files w (upload_path k) = None \<or> upload_path k \<in> locked w) c"
        by (simp add: consistent_def)
      with False frame(1,2) frame(4) [of "upload_path k"] show ?thesis
        by (simp add: upload_path_inject)
    next
      case True
      from look True have l1: "conversions w1 conversion_id = Some c" by simp
      with frame(5) obtain conv where l0: "conversions w conversion_id = Some conv"
        by (cases "conversions w conversion_id") auto
      with assms
      have "job_ok (threads w conversion_id) (files w (upload_path conversion_id) = None \<or>
                              upload_path conversion_id \<in> locked w) conv"
        by (simp add: consistent_def)
      with Some
      have "job_ok (Some at) (files w (upload_path conversion_id) = None \<or>
                              upload_path conversion_id \<in> locked w) conv"
        by simp
      from worker_step_own [OF ws l0 this] l1 True show ?thesis by auto
    qed
  qed
qed

lemma consistent_step: "step w w' \<Longrightarrow> consistent w \<Longrightarrow> consistent w'"
  by (induction rule: step.induct)
    (simp_all add: consistent_submit consistent_advance consistent_delete)

lemma reachable_consistent: "reachable w \<Longrightarrow> consistent w"
  by (induction rule: reachable.induct) (auto intro: consistent_start consistent_step)

lemma terminal_pc:
  assumes "consistent w" "conversions w conversion_id = Some conv"
    "status conv = ''completed'' \<or> status conv = ''error''"
  shows "job_ok (threads w conversion_id)
           (files w (upload_path conversion_id) = None \<or> upload_path conversion_id \<in> locked w)
           conv"
  using assms by (simp add: consistent_def)

lemma convert_pdf_other:
  "other \<noteq> uuid \<Longrightarrow>
   conversions (snd (convert_pdf file_name uuid body w)) other = conversions w other"
  by (simp add: convert_pdf_def Let_def split: sum.split)

lemma delete_conversion_other:
  "other \<noteq> conversion_id \<Longrightarrow>
   conversions (snd (delete_conversion conversion_id w)) other = conversions w other"
  by (simp add: delete_conversion_def remove_quietly_simps Let_def split: option.split)

lemma reachable_advance: "reachable w \<Longrightarrow> reachable (advance b conversion_id w)"
proof (cases "threads w conversion_id")
  case None
  assume "reachable w"
  with None show ?thesis by (simp add: advance_def)
next
  case (Some at)
  assume r: "reachable w"
  from Some have "step w (advance b conversion_id w)" by (rule step.worker)
  with r show ?thesis by (rule reachable.after)
qed

lemma reachable_advances: "reachable w \<Longrightarrow> reachable ((advance b conversion_id ^^ n) w)"
  by (induction n) (simp_all add: reachable_advance)


text \<open>
  Left alone, the worker ends within eight statements, in the state
  \<open>process_conversion\<close> gives.
\<close>

lemma run_worker_process_conversion:
  "run_worker 8 b conversion_id pdf_path At229 w =
     (None, snd (process_conversion b conversion_id pdf_path w))"
proof (cases "conversions w conversion_id")
  case None
  then show ?thesis
    by (simp add: process_conversion_unknown eval_nat_numeral in_try_def in_handler_def assign_def)
next
  case (Some conv)
  show ?thesis
  proof (cases "convert b pdf_path")
    case (Inl e)
    with Some show ?thesis
      by (simp add: process_conversion_known eval_nat_numeral in_try_def in_handler_def
          assign_def enter_engine_def final_record_def)
  next
    case (Inr name)
    with Some show ?thesis
      by (cases "truthy name")
        (simp_all add: process_conversion_known eval_nat_numeral in_try_def in_handler_def
          assign_def enter_engine_def final_record_def)
  qed
qed

section \<open>The download wait\<close>

lemma scan_downloads_None: "scan_downloads entries = Inr None \<longleftrightarrow> \<not> download_ready entries"
  by (auto simp: scan_downloads_def download_ready_def Let_def list_ex_iff filter_empty_conv
      split: option.splits)

lemma scan_downloads_raises:
  "(\<exists>e. scan_downloads entries = Inl e) \<longleftrightarrow> download_ready entries \<and> \<not> readable entries"
proof -
  let ?docx = "filter (\<lambda>f. endswith (fst f) ''.docx'') entries"
  have "(\<exists>e. scan_downloads entries = Inl e) \<longleftrightarrow>
        \<not> list_ex (\<lambda>f. endswith (fst f) ''.crdownload'') entries \<and> ?docx \<noteq> [] \<and>
        find (\<lambda>f. snd f = None) ?docx \<noteq> None"
    by (auto simp: scan_downloads_def Let_def split: option.splits)
  moreover have "?docx \<noteq> [] \<longleftrightarrow> list_ex (\<lambda>f. endswith (fst f) ''.docx'') entries"
    by (simp add: filter_empty_conv list_ex_iff)
  moreover have "find (\<lambda>f. snd f = None) ?docx \<noteq> None \<longleftrightarrow> \<not> readable entries"
    by (force simp: find_None_iff readable_def list_ex_iff)
  ultimately show ?thesis
    by (auto simp: download_ready_def)
qed

lemma hd_sort_key_least:
  assumes "xs \<noteq> []"
  shows "hd (sort_key k xs) \<in> set xs \<and> (\<forall>x \<in> set xs. k (hd (sort_key k xs)) \<le> k x)"
proof -
  from assms have ne: "sort_key k xs \<noteq> []"
    by (metis length_sort list.size(3) length_0_conv)
  then obtain y ys where ys: "sort_key k xs = y # ys"
    by (cases "sort_key k xs") auto
  have "sorted (map k (sort_key k xs))" by (rule sorted_sort_key)
  with ys have "\<forall>x \<in> set (y # ys). k y \<le> k x" by auto
  moreover have "set (y # ys) = set xs" using ys set_sort [of k xs] by simp
  ultimately show ?thesis using ys by auto
qed

lemma scan_downloads_Some:
  assumes "scan_downloads entries = Inr (Some f)"
  shows "endswith f ''.docx'' \<and> download_ready entries \<and> readable entries \<and>
         (\<exists>m. (f, Some m) \<in> set entries \<and>
              (\<forall>g m'. (g, Some m') \<in> set entries \<longrightarrow> endswith g ''.docx'' \<longrightarrow> m' \<le> m))"
proof -
  let ?docx = "filter (\<lambda>f. endswith (fst f) ''.docx'') entries"
  let ?best = "hd (sort_key (\<lambda>f. - the (snd f)) ?docx)"
  from assms have ready: "download_ready entries"
    using scan_downloads_None [of entries] by auto
  from assms have "\<not> (\<exists>e. scan_downloads entries = Inl e)" by simp
  with ready have rd: "readable entries"
    by (simp add: scan_downloads_raises)
  from assms have ne: "?docx \<noteq> []" and f: "f = fst ?best"
    by (auto simp: scan_downloads_def Let_def split: if_splits option.splits)
  from hd_sort_key_least [OF ne, of "\<lambda>f. - the (snd f)"]
  have mem: "?best \<in> set ?docx"
    and least: "\<forall>x \<in> set ?docx. - the (snd ?best) \<le> - the (snd x)"
    by blast+
  from mem rd obtain m where m: "snd ?best = Some m"
    by (cases "snd ?best") (auto simp: readable_def list_ex_iff)
  from f m have "?best = (f, Some m)"
    by (simp add: prod_eq_iff)
  with mem have "endswith f ''.docx''" and "(f, Some m) \<in> set entries"
    by auto
  moreover from least m
  have "\<forall>g m'. (g, Some m') \<in> set entries \<longrightarrow> endswith g ''.docx'' \<longrightarrow> m' \<le> m"
    by fastforce
  ultimately show ?thesis using ready rd by blast
qed

lemma wait_loop_first:
  "wait_loop ls end_time now = r \<Longrightarrow> r \<noteq> Inr None \<Longrightarrow>
   \<exists>t. now \<le> t \<and> t < end_time \<and> scan_downloads (ls t) = r \<and>
       (\<forall>t'. now \<le> t' \<and> t' < t \<longrightarrow> scan_downloads (ls t') = Inr None)"
proof (induction ls end_time now rule: wait_loop.induct)
  case (1 ls end_time now)
  from "1.prems" have lt: "now < end_time"
    by (subst (asm) wait_loop.simps) (simp split: if_splits)
  show ?case
  proof (cases "scan_downloads (ls now) = Inr None")
    case False
    with "1.prems" lt have "scan_downloads (ls now) = r"
      by (subst (asm) wait_loop.simps) (auto split: sum.splits option.splits)
    with lt show ?thesis
      by (intro exI [of _ now]) auto
  next
    case True
    with "1.prems" lt have "wait_loop ls end_time (now + 1) = r"
      by (subst (asm) wait_loop.simps) simp
    from "1.IH" [OF lt True refl this "1.prems"(2)] obtain t where
      t: "now + 1 \<le> t" "t < end_time" "scan_downloads (ls t) = r"
        "\<forall>t'. now + 1 \<le> t' \<and> t' < t \<longrightarrow> scan_downloads (ls t') = Inr None"
      by blast
    have "\<forall>t'. now \<le> t' \<and> t' < t \<longrightarrow> scan_downloads (ls t') = Inr None"
    proof (intro allI impI)
      fix t' assume "now \<le> t' \<and> t' < t"
      then have "t' = now \<or> (now + 1 \<le> t' \<and> t' < t)" by arith
      with True t(4) show "scan_downloads (ls t') = Inr None" by auto
    qed
    with t show ?thesis
      by (intro exI [of _ t]) auto
  qed
qed

lemma wait_loop_hit:
  "now < end_time \<Longrightarrow> scan_downloads (ls now) = r \<Longrightarrow> r \<noteq> Inr None \<Longrightarrow>
   wait_loop ls end_time now = r"
  by (subst wait_loop.simps) (auto split: sum.splits option.splits)

lemma wait_loop_skip:
  "now < end_time \<Longrightarrow> scan_downloads (ls now) = Inr None \<Longrightarrow>
   wait_loop ls end_time now = wait_loop ls end_time (now + 1)"
  by (subst wait_loop.simps) simp

lemma wait_loop_reaches:
  "now \<le> t \<Longrightarrow> t < end_time \<Longrightarrow> scan_downloads (ls t) = r \<Longrightarrow> r \<noteq> Inr None \<Longrightarrow>
   (\<forall>t'. now \<le> t' \<and> t' < t \<longrightarrow> scan_downloads (ls t') = Inr None) \<Longrightarrow>
   wait_loop ls end_time now = r"
proof (induction ls end_time now rule: wait_loop.induct)
  case (1 ls end_time now)
  from "1.prems"(1,2) have lt: "now < end_time" by simp
  show ?case
  proof (cases "t = now")
    case True
    with "1.prems" lt show ?thesis by (simp add: wait_loop_hit)
  next
    case False
    with "1.prems"(1) have later: "now + 1 \<le> t" by simp
    from False "1.prems"(1,5) have none: "scan_downloads (ls now) = Inr None" by simp
    from "1.prems"(5) have rest: "\<forall>t'. now + 1 \<le> t' \<and> t' < t \<longrightarrow> scan_downloads (ls t') = Inr None"
      by simp
    from "1.IH" [OF lt none refl later "1.prems"(2,3,4) rest]
    show ?thesis by (simp add: wait_loop_skip [of now end_time ls, OF lt none])
  qed
qed

lemma wait_loop_None:
  "wait_loop ls end_time now = Inr None \<longleftrightarrow>
   (\<forall>t. now \<le> t \<and> t < end_time \<longrightarrow> scan_downloads (ls t) = Inr None)"
proof
  assume none: "wait_loop ls end_time now = Inr None"
  show "\<forall>t. now \<le> t \<and> t < end_time \<longrightarrow> scan_downloads (ls t) = Inr None"
  proof (rule ccontr)
    assume "\<not> (\<forall>t. now \<le> t \<and> t < end_time \<longrightarrow> scan_downloads (ls t) = Inr None)"
    then have ex: "\<exists>t. now \<le> t \<and> t < end_time \<and> scan_downloads (ls t) \<noteq> Inr None" by blast
    define n where "n = (LEAST n. scan_downloads (ls (now + int n)) \<noteq> Inr None)"
    from ex obtain t where t: "now \<le> t" "t < end_time" "scan_downloads (ls t) \<noteq> Inr None"
      by blast
    then have "scan_downloads (ls (now + int (nat (t - now)))) \<noteq> Inr None" by simp
    then have hit: "scan_downloads (ls (now + int n)) \<noteq> Inr None"
      and le: "n \<le> nat (t - now)"
      unfolding n_def by (rule LeastI, rule Least_le)
    have before: "\<forall>t'. now \<le> t' \<and> t' < now + int n \<longrightarrow> scan_downloads (ls t') = Inr None"
    proof (intro allI impI)
      fix t' assume a: "now \<le> t' \<and> t' < now + int n"
      then have "nat (t' - now) < n" by linarith
      then have "\<not> scan_downloads (ls (now + int (nat (t' - now)))) \<noteq> Inr None"
        unfolding n_def by (rule not_less_Least)
      with a show "scan_downloads (ls t') = Inr None" by simp
    qed
    from le t have "now \<le> now + int n" "now + int n < end_time" by linarith+
    from wait_loop_reaches [OF this refl hit before] none hit show False by simp
  qed
next
  assume all: "\<forall>t. now \<le> t \<and> t < end_time \<longrightarrow> scan_downloads (ls t) = Inr None"
  show "wait_loop ls end_time now = Inr None"
  proof (rule ccontr)
    assume "wait_loop ls end_time now \<noteq> Inr None"
    from wait_loop_first [OF refl this] obtain t where
      "now \<le> t" "t < end_time" "scan_downloads (ls t) = wait_loop ls end_time now"
      by blast
    with all have "wait_loop ls end_time now = Inr None" by metis
    with \<open>wait_loop ls end_time now \<noteq> Inr None\<close> show False by simp
  qed
qed

lemma scan_stale: "scan_downloads (stale_listing t) = Inr (Some ''old.docx'')"
  by (simp add: scan_downloads_def stale_listing_def endswith_def)

lemma scan_vanished: "scan_downloads (vanished_listing t) = Inl (getmtime_error ''gone.docx'')"
  by (simp add: scan_downloads_def vanished_listing_def endswith_def)


section \<open>The example runs, evaluated\<close>

lemma passes_pdf_test: "endswith (lower ''report.pdf'') ''.pdf''"
  by (simp add: endswith_def lower_def lower_char_def)

lemma submitted_world_eq:
  "submitted_world =
     \<lparr>conversions = [''j1'' \<mapsto> pending_job ''j1'' ''report.pdf''],
      files = [upload_path ''j1'' \<mapsto> ''%PDF''], locked = {},
      threads = [''j1'' \<mapsto> At229], trace = []\<rparr>"
  by (simp add: submitted_world_def convert_pdf_def passes_pdf_test start_world_def
      pending_job_def Let_def)

lemma convert_clicked: "convert clicked_browser p = Inr (Some ''old.docx'')"
  by (simp add: convert_def clicked_browser_def wait_for_download_def wait_loop_hit scan_stale)

lemma convert_idle: "convert idle_browser p = Inr None"
proof -
  have "wait_loop empty_listing (0 + 120) 0 = Inr None"
    by (simp add: wait_loop_None scan_downloads_def empty_listing_def)
  then show ?thesis
    by (simp add: convert_def idle_browser_def wait_for_download_def)
qed


lemma reachable_submitted: "reachable submitted_world"
proof -
  have "reachable ((start_world Map.empty)\<lparr>locked := {}\<rparr>)"
    by (rule reachable.start)
  then have r: "reachable (start_world Map.empty)"
    by (simp add: start_world_def)
  have "step (start_world Map.empty) submitted_world"
    unfolding submitted_world_def
    by (rule step.submit) (simp_all add: start_world_def)
  with r show ?thesis by (rule reachable.after)
qed

lemma running_world_eq:
  "running_world =
     \<lparr>conversions = [''j1'' \<mapsto> (pending_job ''j1'' ''report.pdf'')
          \<lparr>status := ''processing'', message := ''Convertendo PDF para Word...''\<rparr>],
      files = [upload_path ''j1'' \<mapsto> ''%PDF''], locked = {},
      threads = [''j1'' \<mapsto> At237], trace = []\<rparr>"
  by (simp add: running_world_def submitted_world_eq eval_nat_numeral advance_def
      in_try_def assign_def)

lemma half_done_world_eq:
  "half_done_world =
     \<lparr>conversions = [''j1'' \<mapsto> (pending_job ''j1'' ''report.pdf'')
          \<lparr>status := ''completed'', message := ''Convertendo PDF para Word...''\<rparr>],
      files = [upload_path ''j1'' \<mapsto> ''%PDF''], locked = {},
      threads = [''j1'' \<mapsto> At242 (Some ''old.docx'')],
      trace = [EngineCall (upload_path ''j1'')]\<rparr>"
  by (simp add: half_done_world_def running_world_eq eval_nat_numeral advance_def
      in_try_def assign_def convert_clicked enter_engine_def pending_job_def)

lemma finished_world_eq:
  "finished_world =
     \<lparr>conversions = [''j1'' \<mapsto> completed_job ''j1'' ''report.pdf'' ''old.docx''],
      files = Map.empty, locked = {}, threads = Map.empty,
      trace = [EngineCall (upload_path ''j1''), OsRemove (upload_path ''j1'')]\<rparr>"
  by (simp add: finished_world_def half_done_world_eq eval_nat_numeral advance_def
      in_try_def assign_def remove_quietly_def pending_job_def completed_job_def)

lemma reachable_running: "reachable running_world"
  unfolding running_world_def using reachable_submitted by (rule reachable_advances)

lemma reachable_half_done: "reachable half_done_world"
  unfolding half_done_world_def using reachable_running by (rule reachable_advances)

lemma reachable_finished: "reachable finished_world"
  unfolding finished_world_def using reachable_half_done by (rule reachable_advances)






section \<open>Claims\<close>

subsection \<open>C1: a job in a final status\<close>

text \<open>
  C1, as amended. \<open>api.py\<close> has no transition operation and no \<open>InvalidTransition\<close>
  error. In every state the service can reach, statement by statement, once the status
  of a job is \<open>completed\<close> or \<open>error\<close> no step of the service changes that status as
  long as the record exists. The worker that wrote the status still writes the message
  (and the filename and url) in its next statements; once that worker has ended, no
  step changes the record at all. The only other outcome of a step is the deletion of
  the job.
\<close>

theorem terminal_status_fixed:
  assumes "reachable w" "step w w'" "conversions w conversion_id = Some conv"
    "status conv = ''completed'' \<or> status conv = ''error''"
  shows "w' = snd (delete_conversion conversion_id w) \<or>
         (\<exists>conv'. conversions w' conversion_id = Some conv' \<and> status conv' = status conv \<and>
                  (threads w conversion_id = None \<longrightarrow> conv' = conv))"
proof -
  from assms(1) have inv: "consistent w"
    by (rule reachable_consistent)
  from assms(2) show ?thesis
  proof (cases rule: step.cases)
    case (submit uuid file_name body)
    with assms(3) have "conversion_id \<noteq> uuid" by auto
    with submit assms(3) show ?thesis by (simp add: convert_pdf_other)
  next
    case (worker k at b)
    obtain "next" w1 where
      ws: "worker_step b k (upload_path k) at w = (next, w1)"
      by (cases "worker_step b k (upload_path k) at w")
    with worker have w': "w' = w1\<lparr>threads := (threads w1)(k := next)\<rparr>"
      by (simp add: advance_def)
    show ?thesis
    proof (cases "k = conversion_id")
      case False
      with worker_step_frame(3) [OF ws, of conversion_id] assms(3) w'
      show ?thesis by simp
    next
      case True
      from inv assms(3)
      have "job_ok (threads w conversion_id)
              (files w (upload_path conversion_id) = None \<or> upload_path conversion_id \<in> locked w)
              conv"
        by (simp add: consistent_def)
      with worker(2) True
      have ok: "job_ok (Some at)
              (files w (upload_path k) = None \<or> upload_path k \<in> locked w) conv"
        by simp
      from assms(3) True have l: "conversions w k = Some conv" by simp
      from worker_step_own [OF ws l ok] assms(4) w' True worker(2)
      show ?thesis by auto
    qed
  next
    case (delete k)
    with assms(3) show ?thesis
      by (cases "k = conversion_id") (simp_all add: delete_conversion_other)
  qed
qed

text \<open>
  The theorem at the job \<open>j1\<close> of the example run: right after line 241, with its own
  worker as the step, and after the worker has ended, with the submission of a second
  job as the step.
\<close>

theorem terminal_status_fixed_witness:
  "reachable half_done_world \<and>
   step half_done_world (advance clicked_browser ''j1'' half_done_world) \<and>
   map_option status (conversions half_done_world ''j1'') = Some ''completed'' \<and>
   map_option status (conversions (advance clicked_browser ''j1'' half_done_world) ''j1'') =
     Some ''completed'' \<and>
   reachable finished_world \<and>
   step finished_world (snd (convert_pdf ''b.pdf'' ''j2'' (Inr ''%PDF'') finished_world)) \<and>
   conversions finished_world ''j1'' = Some (completed_job ''j1'' ''report.pdf'' ''old.docx'') \<and>
   status (completed_job ''j1'' ''report.pdf'' ''old.docx'') = ''completed'' \<and>
   threads finished_world ''j1'' = None \<and>
   conversions (snd (convert_pdf ''b.pdf'' ''j2'' (Inr ''%PDF'') finished_world)) ''j1'' =
     Some (completed_job ''j1'' ''report.pdf'' ''old.docx'')"
proof -
  let ?half = "(pending_job ''j1'' ''report.pdf'')
          \<lparr>status := ''completed'', message := ''Convertendo PDF para Word...''\<rparr>"
  have h: "conversions half_done_world ''j1'' = Some ?half"
    by (simp add: half_done_world_eq)
  have hs: "status ?half = ''completed''"
    by simp
  have ht: "step half_done_world (advance clicked_browser ''j1'' half_done_world)"
    by (rule step.worker [of _ _ "At242 (Some ''old.docx'')"]) (simp add: half_done_world_eq)
  have hn: "advance clicked_browser ''j1'' half_done_world \<noteq>
            snd (delete_conversion ''j1'' half_done_world)"
  proof
    assume "advance clicked_browser ''j1'' half_done_world =
            snd (delete_conversion ''j1'' half_done_world)"
    then have "conversions (advance clicked_browser ''j1'' half_done_world) ''j1'' =
            conversions (snd (delete_conversion ''j1'' half_done_world)) ''j1''"
      by simp
    then show False
      by (simp add: half_done_world_eq advance_def in_try_def assign_def delete_conversion_def
          Let_def)
  qed
  have l: "conversions finished_world ''j1'' = Some (completed_job ''j1'' ''report.pdf'' ''old.docx'')"
    by (simp add: finished_world_eq)
  have s: "status (completed_job ''j1'' ''report.pdf'' ''old.docx'') = ''completed''"
    by (simp add: completed_job_def)
  have n: "threads finished_world ''j1'' = None"
    by (simp add: finished_world_eq)
  have st: "step finished_world (snd (convert_pdf ''b.pdf'' ''j2'' (Inr ''%PDF'') finished_world))"
    by (rule step.submit) (simp_all add: finished_world_eq)
  have nd: "snd (convert_pdf ''b.pdf'' ''j2'' (Inr ''%PDF'') finished_world) \<noteq>
            snd (delete_conversion ''j1'' finished_world)"
  proof
    assume "snd (convert_pdf ''b.pdf'' ''j2'' (Inr ''%PDF'') finished_world) =
            snd (delete_conversion ''j1'' finished_world)"
    then have "conversions (snd (convert_pdf ''b.pdf'' ''j2'' (Inr ''%PDF'') finished_world)) ''j1'' =
            conversions (snd (delete_conversion ''j1'' finished_world)) ''j1''"
      by simp
    then show False
      by (simp add: convert_pdf_other delete_conversion_def finished_world_eq Let_def)
  qed
  from terminal_status_fixed [OF reachable_half_done ht h] hs hn
  have 1: "map_option status (conversions (advance clicked_browser ''j1'' half_done_world) ''j1'') =
     Some ''completed''"
    by auto
  from terminal_status_fixed [OF reachable_finished st l] s nd n
  have 2: "conversions (snd (convert_pdf ''b.pdf'' ''j2'' (Inr ''%PDF'') finished_world)) ''j1'' =
     Some (completed_job ''j1'' ''report.pdf'' ''old.docx'')"
    by auto
  from 1 2 h hs ht l s n st reachable_half_done reachable_finished show ?thesis
    by simp
qed

text \<open>
  C1 as stated fails: a transition attempted on a job in a final status is not refused.
  \<open>process_conversion\<close> run on the completed job \<open>j1\<close> raises nothing and rewrites its
  status and message.
\<close>

theorem rerun_overwrites_terminal_job:
  "conversions finished_world ''j1'' = Some (completed_job ''j1'' ''report.pdf'' ''old.docx'') \<and>
   status (completed_job ''j1'' ''report.pdf'' ''old.docx'') = ''completed'' \<and>
   fst (process_conversion idle_browser ''j1'' (upload_path ''j1'') finished_world) = None \<and>
   conversions (snd (process_conversion idle_browser ''j1'' (upload_path ''j1'') finished_world)) ''j1'' =
     Some ((completed_job ''j1'' ''report.pdf'' ''old.docx'')
             \<lparr>status := ''error'', message := ''Falha na convers'' @ a_tilde @ ''o''\<rparr>)"
proof -
  have l: "conversions finished_world ''j1'' = Some (completed_job ''j1'' ''report.pdf'' ''old.docx'')"
    by (simp add: finished_world_eq)
  show ?thesis
    by (simp add: process_conversion_known [OF l] remove_quietly_simps l convert_idle
        final_record_def)
      (simp add: completed_job_def)
qed

subsection \<open>C2: the artifact name and the status\<close>

text \<open>
  C2, as amended. In every state the service can reach, statement by statement: a
  record with a non-empty \<open>filename\<close> has status \<open>completed\<close>; a pending job, a
  processing job and a job that ended in \<open>error\<close> have no filename; and a completed job
  has a non-empty filename, except while its worker stands between line 241, which
  writes the status, and line 243, which writes the filename. In particular every
  completed job whose worker has ended has a non-empty filename.
\<close>

theorem artifact_implies_completed:
  assumes "reachable w" "conversions w conversion_id = Some conv"
  shows "(truthy (filename conv) \<longrightarrow> status conv = ''completed'') \<and>
         (status conv \<in> {''pending'', ''processing'', ''error''} \<longrightarrow> filename conv = None) \<and>
         (status conv = ''completed'' \<longrightarrow>
            (\<exists>name. filename conv = Some name \<and> name \<noteq> []) \<or>
            filename conv = None \<and>
            (\<exists>name. threads w conversion_id = Some (At242 name) \<or>
                    threads w conversion_id = Some (At243 name)))"
proof -
  from assms(1) have "consistent w"
    by (rule reachable_consistent)
  with assms(2)
  have "job_ok (threads w conversion_id)
          (files w (upload_path conversion_id) = None \<or> upload_path conversion_id \<in> locked w)
          conv"
    by (simp add: consistent_def)
  then show ?thesis
    by (cases "(threads w conversion_id,
                files w (upload_path conversion_id) = None \<or> upload_path conversion_id \<in> locked w,
                conv)" rule: job_ok.cases; cases "filename conv"; simp)
qed

text \<open>
  The theorem at the pending, the processing and the completed job of the example run,
  the last after its worker has ended.
\<close>

theorem artifact_implies_completed_witness:
  "reachable submitted_world \<and> reachable running_world \<and> reachable finished_world \<and>
   conversions submitted_world ''j1'' = Some (pending_job ''j1'' ''report.pdf'') \<and>
   filename (pending_job ''j1'' ''report.pdf'') = None \<and>
   conversions running_world ''j1'' =
     Some ((pending_job ''j1'' ''report.pdf'')
             \<lparr>status := ''processing'', message := ''Convertendo PDF para Word...''\<rparr>) \<and>
   filename ((pending_job ''j1'' ''report.pdf'')
             \<lparr>status := ''processing'', message := ''Convertendo PDF para Word...''\<rparr>) = None \<and>
   conversions finished_world ''j1'' = Some (completed_job ''j1'' ''report.pdf'' ''old.docx'') \<and>
   status (completed_job ''j1'' ''report.pdf'' ''old.docx'') = ''completed'' \<and>
   threads finished_world ''j1'' = None \<and>
   truthy (filename (completed_job ''j1'' ''report.pdf'' ''old.docx''))"
proof -
  have p: "conversions submitted_world ''j1'' = Some (pending_job ''j1'' ''report.pdf'')"
    by (simp add: submitted_world_eq)
  have q: "conversions running_world ''j1'' =
     Some ((pending_job ''j1'' ''report.pdf'')
             \<lparr>status := ''processing'', message := ''Convertendo PDF para Word...''\<rparr>)"
    by (simp add: running_world_eq)
  have l: "conversions finished_world ''j1'' = Some (completed_job ''j1'' ''report.pdf'' ''old.docx'')"
    by (simp add: finished_world_eq)
  have n: "threads finished_world ''j1'' = None"
    by (simp add: finished_world_eq)
  have s: "status (completed_job ''j1'' ''report.pdf'' ''old.docx'') = ''completed''"
    by (simp add: completed_job_def)
  have sp: "status (pending_job ''j1'' ''report.pdf'') = ''pending''"
    by (simp add: pending_job_def)
  from artifact_implies_completed [OF reachable_submitted p]
    artifact_implies_completed [OF reachable_running q]
    artifact_implies_completed [OF reachable_finished l]
    s sp p q l n reachable_submitted reachable_running reachable_finished
  show ?thesis by auto
qed

text \<open>
  C2 as stated fails: right after line 241 of its worker, the job \<open>j1\<close> of the example
  run is completed and has no filename.
\<close>

theorem completed_without_filename:
  "reachable half_done_world \<and>
   map_option status (conversions half_done_world ''j1'') = Some ''completed'' \<and>
   map_option filename (conversions half_done_world ''j1'') = Some None"
  using reachable_half_done by (simp add: half_done_world_eq pending_job_def)

subsection \<open>C3: the upload is removed\<close>




subsection \<open>C4: finding the downloaded file\<close>

text \<open>
  C4, as amended. \<open>_wait_for_download\<close> takes no reference timestamp and compares no
  modification time with one. It looks at the download directory once a second, from
  the call until the timeout, and stops at the first look that finds no \<open>.crdownload\<close>
  file and at least one \<open>.docx\<close> file. When the modification time of every \<open>.docx\<close>
  file of that listing can be read, it returns a name of the listing that ends in
  \<open>.docx\<close> and whose modification time no \<open>.docx\<close> file of the listing exceeds; when
  one cannot be read, it raises (and \<open>convert\<close> reports a failure). It returns no result
  exactly when no look before the timeout finds the directory so.
\<close>

theorem wait_for_download_newest_docx:
  "(wait_for_download ls now timeout = Inr (Some f) \<longrightarrow>
      (\<exists>t. now \<le> t \<and> t < now + timeout \<and>
           (\<forall>t'. now \<le> t' \<and> t' < t \<longrightarrow> \<not> download_ready (ls t')) \<and>
           download_ready (ls t) \<and> readable (ls t) \<and> endswith f ''.docx'' \<and>
           (\<exists>m. (f, Some m) \<in> set (ls t) \<and>
                (\<forall>g m'. (g, Some m') \<in> set (ls t) \<longrightarrow> endswith g ''.docx'' \<longrightarrow> m' \<le> m)))) \<and>
   (wait_for_download ls now timeout = Inr None \<longleftrightarrow>
      (\<forall>t. now \<le> t \<and> t < now + timeout \<longrightarrow> \<not> download_ready (ls t))) \<and>
   ((\<exists>e. wait_for_download ls now timeout = Inl e) \<longleftrightarrow>
      (\<exists>t. now \<le> t \<and> t < now + timeout \<and>
           (\<forall>t'. now \<le> t' \<and> t' < t \<longrightarrow> \<not> download_ready (ls t')) \<and>
           download_ready (ls t) \<and> \<not> readable (ls t)))"
proof (intro conjI impI)
  assume "wait_for_download ls now timeout = Inr (Some f)"
  then have "wait_loop ls (now + timeout) now = Inr (Some f)"
    by (simp add: wait_for_download_def)
  from wait_loop_first [OF this] obtain t where
    t: "now \<le> t" "t < now + timeout" "scan_downloads (ls t) = Inr (Some f)"
      "\<forall>t'. now \<le> t' \<and> t' < t \<longrightarrow> scan_downloads (ls t') = Inr None"
    by auto
  from t(4) have "\<forall>t'. now \<le> t' \<and> t' < t \<longrightarrow> \<not> download_ready (ls t')"
    by (simp add: scan_downloads_None)
  with t(1,2) scan_downloads_Some [OF t(3)]
  show "\<exists>t. now \<le> t \<and> t < now + timeout \<and>
           (\<forall>t'. now \<le> t' \<and> t' < t \<longrightarrow> \<not> download_ready (ls t')) \<and>
           download_ready (ls t) \<and> readable (ls t) \<and> endswith f ''.docx'' \<and>
           (\<exists>m. (f, Some m) \<in> set (ls t) \<and>
                (\<forall>g m'. (g, Some m') \<in> set (ls t) \<longrightarrow> endswith g ''.docx'' \<longrightarrow> m' \<le> m))"
    by (intro exI [of _ t]) simp
next
  show "wait_for_download ls now timeout = Inr None \<longleftrightarrow>
      (\<forall>t. now \<le> t \<and> t < now + timeout \<longrightarrow> \<not> download_ready (ls t))"
    by (simp add: wait_for_download_def wait_loop_None scan_downloads_None)
next
  show "(\<exists>e. wait_for_download ls now timeout = Inl e) \<longleftrightarrow>
      (\<exists>t. now \<le> t \<and> t < now + timeout \<and>
           (\<forall>t'. now \<le> t' \<and> t' < t \<longrightarrow> \<not> download_ready (ls t')) \<and>
           download_ready (ls t) \<and> \<not> readable (ls t))"
  proof
    assume "\<exists>e. wait_for_download ls now timeout = Inl e"
    then obtain e where "wait_loop ls (now + timeout) now = Inl e"
      by (auto simp: wait_for_download_def)
    from wait_loop_first [OF this] obtain t where
      t: "now \<le> t" "t < now + timeout" "scan_downloads (ls t) = Inl e"
        "\<forall>t'. now \<le> t' \<and> t' < t \<longrightarrow> scan_downloads (ls t') = Inr None"
      by auto
    from t(3) have "download_ready (ls t) \<and> \<not> readable (ls t)"
      using scan_downloads_raises [of "ls t"] by auto
    moreover from t(4) have "\<forall>t'. now \<le> t' \<and> t' < t \<longrightarrow> \<not> download_ready (ls t')"
      by (simp add: scan_downloads_None)
    ultimately show "\<exists>t. now \<le> t \<and> t < now + timeout \<and>
           (\<forall>t'. now \<le> t' \<and> t' < t \<longrightarrow> \<not> download_ready (ls t')) \<and>
           download_ready (ls t) \<and> \<not> readable (ls t)"
      using t(1,2) by (intro exI [of _ t]) simp
  next
    assume "\<exists>t. now \<le> t \<and> t < now + timeout \<and>
           (\<forall>t'. now \<le> t' \<and> t' < t \<longrightarrow> \<not> download_ready (ls t')) \<and>
           download_ready (ls t) \<and> \<not> readable (ls t)"
    then obtain t where t: "now \<le> t" "t < now + timeout"
      "\<forall>t'. now \<le> t' \<and> t' < t \<longrightarrow> \<not> download_ready (ls t')"
      "download_ready (ls t)" "\<not> readable (ls t)"
      by blast
    from t(4,5) obtain e where e: "scan_downloads (ls t) = Inl e"
      using scan_downloads_raises [of "ls t"] by auto
    from t(3) have "\<forall>t'. now \<le> t' \<and> t' < t \<longrightarrow> scan_downloads (ls t') = Inr None"
      by (simp add: scan_downloads_None)
    from wait_loop_reaches [OF t(1,2) e _ this]
    have "wait_loop ls (now + timeout) now = Inl e" by simp
    then show "\<exists>e. wait_for_download ls now timeout = Inl e"
      by (simp add: wait_for_download_def)
  qed
qed

text \<open>
  The theorem at the directory holding \<open>old.docx\<close>, at the empty directory, and at the
  directory listing a \<open>.docx\<close> file that is gone.
\<close>

theorem wait_for_download_newest_docx_witness:
  "wait_for_download stale_listing 100 120 = Inr (Some ''old.docx'') \<and>
   endswith ''old.docx'' ''.docx'' \<and>
   (\<exists>t. 100 \<le> t \<and> t < 100 + 120 \<and> download_ready (stale_listing t) \<and>
        (\<exists>m. (''old.docx'', Some m) \<in> set (stale_listing t))) \<and>
   wait_for_download empty_listing 0 120 = Inr None \<and>
   download_ready (vanished_listing 0) \<and> \<not> readable (vanished_listing 0) \<and>
   (\<exists>e. wait_for_download vanished_listing 0 120 = Inl e)"
proof -
  have h: "wait_for_download stale_listing 100 120 = Inr (Some ''old.docx'')"
    by (simp add: wait_for_download_def wait_loop_hit scan_stale)
  have e: "\<forall>t. 0 \<le> t \<and> t < 0 + 120 \<longrightarrow> \<not> download_ready (empty_listing t)"
    by (simp add: download_ready_def empty_listing_def)
  have v: "download_ready (vanished_listing 0) \<and> \<not> readable (vanished_listing 0)"
    by (simp add: download_ready_def readable_def vanished_listing_def endswith_def)
  from wait_for_download_newest_docx [of stale_listing 100 120 "''old.docx''"] h
  have 1: "endswith ''old.docx'' ''.docx'' \<and>
     (\<exists>t. 100 \<le> t \<and> t < 100 + 120 \<and> download_ready (stale_listing t) \<and>
        (\<exists>m. (''old.docx'', Some m) \<in> set (stale_listing t)))"
    by blast
  from wait_for_download_newest_docx [of empty_listing 0 120 "''x''"] e
  have 2: "wait_for_download empty_listing 0 120 = Inr None"
    by blast
  have "\<exists>t. (0::int) \<le> t \<and> t < 0 + 120 \<and>
           (\<forall>t'. 0 \<le> t' \<and> t' < t \<longrightarrow> \<not> download_ready (vanished_listing t')) \<and>
           download_ready (vanished_listing t) \<and> \<not> readable (vanished_listing t)"
    using v by (intro exI [of _ 0]) auto
  with wait_for_download_newest_docx [of vanished_listing 0 120 "''x''"]
  have 3: "\<exists>e. wait_for_download vanished_listing 0 120 = Inl e"
    by blast
  from h 1 2 3 v show ?thesis by blast
qed

text \<open>
  C4 as stated fails: with the time of the call, 100, as the reference, the file
  returned was last modified at 5.
\<close>

theorem wait_for_download_returns_stale_file:
  "wait_for_download stale_listing 100 120 = Inr (Some ''old.docx'') \<and>
   stale_listing 100 = [(''old.docx'', Some 5)] \<and> (5::int) < 100"
  by (simp add: wait_for_download_def wait_loop_hit scan_stale) (simp add: stale_listing_def)

subsection \<open>C5: download gating\<close>

text \<open>
  C5. For a job in the registry, \<open>download_file\<close> fails with status 400 when the status
  of the job is not \<open>completed\<close>, fails with status 404 when the job is completed and
  its artifact file is not in the output directory, and succeeds exactly when the job is
  completed, has an artifact name, and the file exists.
\<close>

theorem download_gating:
  "conversions w conversion_id = Some conv \<Longrightarrow>
   (status conv \<noteq> ''completed'' \<longrightarrow>
      download_file conversion_id w =
        Inl (HTTPException 400
          (conversao @ '' '' @ nao @ '' conclu'' @ i_acute @ ''da. Status: '' @ status conv))) \<and>
   (status conv = ''completed'' \<longrightarrow> filename conv = Some name \<longrightarrow>
    files w (output_path name) = None \<longrightarrow>
      (\<exists>detail. download_file conversion_id w = Inl (HTTPException 404 detail))) \<and>
   ((\<exists>response. download_file conversion_id w = Inr response) \<longleftrightarrow>
      status conv = ''completed'' \<and>
      (\<exists>name. filename conv = Some name \<and> name \<noteq> [] \<and> files w (output_path name) \<noteq> None))"
  by (cases "filename conv") (auto simp: download_file_def Let_def)

text \<open>
  The theorem at a pending job, at a completed job whose artifact is not on disk, and at
  a completed job whose artifact is.
\<close>

theorem download_gating_witness:
  "download_file ''j1'' submitted_world =
     Inl (HTTPException 400
       (conversao @ '' '' @ nao @ '' conclu'' @ i_acute @ ''da. Status: pending'')) \<and>
   (\<exists>detail. download_file ''j1'' finished_world = Inl (HTTPException 404 detail)) \<and>
   (\<exists>response. download_file ''j1'' done_world = Inr response)"
proof -
  have a: "conversions submitted_world ''j1'' = Some (pending_job ''j1'' ''report.pdf'')"
    by (simp add: submitted_world_eq)
  have b: "conversions finished_world ''j1'' = Some (completed_job ''j1'' ''report.pdf'' ''old.docx'')"
    by (simp add: finished_world_eq)
  have c: "conversions done_world ''j1'' = Some (completed_job ''j1'' ''report.pdf'' ''report.docx'')"
    by (simp add: done_world_def)
  have b': "files finished_world (output_path ''old.docx'') = None"
    by (simp add: finished_world_eq)
  have c': "files done_world (output_path ''report.docx'') = Some ''PK''"
    by (simp add: done_world_def output_path_def)
  from download_gating [OF a, of "''x''"] have 1: "download_file ''j1'' submitted_world =
     Inl (HTTPException 400
       (conversao @ '' '' @ nao @ '' conclu'' @ i_acute @ ''da. Status: pending''))"
    by (simp add: pending_job_def)
  from download_gating [OF b, of "''old.docx''"] b'
  have 2: "\<exists>detail. download_file ''j1'' finished_world = Inl (HTTPException 404 detail)"
    by (simp add: completed_job_def)
  from download_gating [OF c, of "''report.docx''"] c'
  have 3: "\<exists>response. download_file ''j1'' done_world = Inr response"
    by (simp add: completed_job_def)
  from 1 2 3 show ?thesis by blast
qed

subsection \<open>C6: failures inside the worker\<close>




subsection \<open>C7: creating a job\<close>

text \<open>
  C7, as amended. \<open>api.py\<close> has no duplicate-id check and no \<open>DuplicateID\<close> error: the
  id is the one \<open>uuid4\<close> gives. An accepted submission stores a pending record under
  that id and leaves the record of every other id unchanged; when the id was not in
  the registry, the registry grows by exactly that id.
\<close>

theorem create_adds_pending_record:
  "convert_pdf file_name uuid body w = (Inr response, w') \<Longrightarrow>
   conversions w' uuid = Some (pending_job uuid file_name) \<and>
   (\<forall>other. other \<noteq> uuid \<longrightarrow> conversions w' other = conversions w other) \<and>
   (uuid \<notin> dom (conversions w) \<longrightarrow> dom (conversions w') = insert uuid (dom (conversions w)))"
  by (auto simp: convert_pdf_def pending_job_def Let_def split: if_splits sum.splits)

text \<open>The theorem at the first submission of the example run.\<close>

theorem create_adds_pending_record_witness:
  "convert_pdf ''report.pdf'' ''j1'' (Inr ''%PDF'') (start_world Map.empty) =
     (Inr (ConversionStatus ''j1'' ''pending''
            (Some (conversao @ '' iniciada. Use /status/{id} para acompanhar.'')) None None),
      submitted_world) \<and>
   ''j1'' \<notin> dom (conversions (start_world Map.empty)) \<and>
   conversions submitted_world ''j1'' = Some (pending_job ''j1'' ''report.pdf'') \<and>
   dom (conversions submitted_world) = {''j1''}"
proof -
  have r: "convert_pdf ''report.pdf'' ''j1'' (Inr ''%PDF'') (start_world Map.empty) =
     (Inr (ConversionStatus ''j1'' ''pending''
            (Some (conversao @ '' iniciada. Use /status/{id} para acompanhar.'')) None None),
      submitted_world)"
    by (simp add: submitted_world_def convert_pdf_def passes_pdf_test Let_def)
  have f: "''j1'' \<notin> dom (conversions (start_world Map.empty))"
    by (simp add: start_world_def)
  have e: "dom (conversions (start_world Map.empty)) = {}"
    by (simp add: start_world_def)
  from create_adds_pending_record [OF r] r f e show ?thesis by simp
qed

text \<open>
  C7 as stated fails: a submission under the id of the completed job \<open>j1\<close> is accepted
  and replaces its record by a pending one.
\<close>

theorem duplicate_id_overwrites:
  "conversions done_world ''j1'' = Some (completed_job ''j1'' ''report.pdf'' ''report.docx'') \<and>
   fst (convert_pdf ''other.pdf'' ''j1'' (Inr ''%PDF'') done_world) =
     Inr (ConversionStatus ''j1'' ''pending''
            (Some (conversao @ '' iniciada. Use /status/{id} para acompanhar.'')) None None) \<and>
   conversions (snd (convert_pdf ''other.pdf'' ''j1'' (Inr ''%PDF'') done_world)) ''j1'' =
     Some (pending_job ''j1'' ''other.pdf'')"
  by (simp add: convert_pdf_def done_world_def endswith_def lower_def lower_char_def
      pending_job_def Let_def)

subsection \<open>C8: deletion\<close>

text \<open>
  C8, as amended. For an id in the registry, \<open>delete_conversion\<close> succeeds and removes
  the record, so that a status query and a download for that id then fail with status
  404, and leaves the other records unchanged. When the record names an artifact, it
  calls \<open>os.remove\<close> on the artifact file once and drops a failure of that call: the
  file is no longer on disk unless the operating system refuses the removal. For an id
  not in the registry it fails with status 404 and changes nothing.
\<close>

theorem delete_best_effort:
  "(conversions w conversion_id = Some conv \<longrightarrow>
      fst (delete_conversion conversion_id w) = Inr (conversao @ '' removida'') \<and>
      conversions (snd (delete_conversion conversion_id w)) conversion_id = None \<and>
      (\<exists>detail. get_status conversion_id (snd (delete_conversion conversion_id w)) =
         Inl (HTTPException 404 detail)) \<and>
      (\<exists>detail. download_file conversion_id (snd (delete_conversion conversion_id w)) =
         Inl (HTTPException 404 detail)) \<and>
      (\<forall>name. filename conv = Some name \<longrightarrow> name \<noteq> [] \<longrightarrow>
         trace (snd (delete_conversion conversion_id w)) =
           trace w @ [OsRemove (output_path name)] \<and>
         (output_path name \<notin> locked w \<longrightarrow>
            files (snd (delete_conversion conversion_id w)) (output_path name) = None)) \<and>
      (\<not> truthy (filename conv) \<longrightarrow>
         trace (snd (delete_conversion conversion_id w)) = trace w \<and>
         files (snd (delete_conversion conversion_id w)) = files w) \<and>
      (\<forall>other. other \<noteq> conversion_id \<longrightarrow>
         conversions (snd (delete_conversion conversion_id w)) other = conversions w other)) \<and>
   (conversions w' unknown_id = None \<longrightarrow>
      (\<exists>detail. delete_conversion unknown_id w' = (Inl (HTTPException 404 detail), w')))"
  by (auto simp: delete_conversion_def get_status_def download_file_def remove_quietly_def Let_def)

text \<open>
  The theorem at the completed job \<open>j1\<close>, whose artifact is on disk before the deletion,
  and at the unknown id \<open>j2\<close>.
\<close>

theorem delete_best_effort_witness:
  "fst (delete_conversion ''j1'' done_world) = Inr (conversao @ '' removida'') \<and>
   conversions (snd (delete_conversion ''j1'' done_world)) ''j1'' = None \<and>
   files done_world (output_path ''report.docx'') = Some ''PK'' \<and>
   output_path ''report.docx'' \<notin> locked done_world \<and>
   files (snd (delete_conversion ''j1'' done_world)) (output_path ''report.docx'') = None \<and>
   trace (snd (delete_conversion ''j1'' done_world)) = [OsRemove (output_path ''report.docx'')] \<and>
   (\<exists>detail. delete_conversion ''j2'' done_world = (Inl (HTTPException 404 detail), done_world))"
proof -
  have a: "conversions done_world ''j1'' = Some (completed_job ''j1'' ''report.pdf'' ''report.docx'')"
    by (simp add: done_world_def)
  have b: "conversions done_world ''j2'' = None"
    by (simp add: done_world_def)
  have f: "filename (completed_job ''j1'' ''report.pdf'' ''report.docx'') = Some ''report.docx''"
    by (simp add: completed_job_def)
  have g: "files done_world (output_path ''report.docx'') = Some ''PK''"
    by (simp add: done_world_def output_path_def)
  have k: "output_path ''report.docx'' \<notin> locked done_world"
    by (simp add: done_world_def)
  have t: "trace done_world = []"
    by (simp add: done_world_def)
  from delete_best_effort [of done_world "''j1''" "completed_job ''j1'' ''report.pdf'' ''report.docx''"
      done_world "''j2''"] a b f g k t
  show ?thesis by simp
qed

text \<open>
  C8 as stated fails: when the operating system refuses to remove the artifact, the
  deletion succeeds, the record is gone and the file is still on disk.
\<close>

theorem delete_leaves_refused_artifact:
  "conversions stuck_world ''j1'' = Some (completed_job ''j1'' ''report.pdf'' ''report.docx'') \<and>
   fst (delete_conversion ''j1'' stuck_world) = Inr (conversao @ '' removida'') \<and>
   conversions (snd (delete_conversion ''j1'' stuck_world)) ''j1'' = None \<and>
   files (snd (delete_conversion ''j1'' stuck_world)) (output_path ''report.docx'') = Some ''PK''"
  by (simp add: stuck_world_def done_world_def delete_conversion_def remove_quietly_def
      completed_job_def output_path_def)

subsection \<open>C9: the extension check rejects\<close>

text \<open>
  C9. A submission whose file name does not end in \<open>.pdf\<close>, letter case apart, is
  rejected with status 400, and the state is unchanged: no record is created and no
  file is written.
\<close>

theorem rejects_other_extensions:
  "\<not> endswith (lower file_name) ''.pdf'' \<Longrightarrow>
   convert_pdf file_name uuid body w = (Inl (HTTPException 400 ''O arquivo deve ser um PDF''), w)"
  by (simp add: convert_pdf_def)

text \<open>The theorem at the file name \<open>report.txt\<close>.\<close>

theorem rejects_other_extensions_witness:
  "\<not> endswith (lower ''report.txt'') ''.pdf'' \<and>
   convert_pdf ''report.txt'' ''u1'' (Inr ''%PDF'') (start_world Map.empty) =
     (Inl (HTTPException 400 ''O arquivo deve ser um PDF''), start_world Map.empty)"
proof -
  have h: "\<not> endswith (lower ''report.txt'') ''.pdf''"
    by (simp add: endswith_def lower_def lower_char_def)
  from rejects_other_extensions [OF h] h show ?thesis by simp
qed

subsection \<open>C10: the extension check ignores letter case\<close>



end
